theory Spec2Isabelle
  imports Complex_Main "HOL-Library.Sublist"
begin

section \<open>Customer segmentation by keyword rules (src/app.py, parse_segment_prompt)\<close>

text \<open>
  The function \<^verbatim>\<open>parse_segment_prompt(prompt, customers_df, bookings_df)\<close> lower-cases
  the request, runs a fixed sequence of keyword tests, narrows a working copy of the
  customer table after each test that succeeds and collects one explanatory string per
  narrowing. The embedding below follows the function block by block.

  Scope of the model: text is ASCII (a Python \<^verbatim>\<open>str\<close> is a list of bytes here, so the
  one non-ASCII character of the source, the sign in the frequent-flyer label, is its three
  UTF-8 bytes); every column holds values of its kind (no missing entries); booking amounts
  are exact rationals.
\<close>

subsection \<open>Python strings\<close>

definition lower_char :: "char \<Rightarrow> char" where
  "lower_char c =
     (case map_of (zip ''ABCDEFGHIJKLMNOPQRSTUVWXYZ'' ''abcdefghijklmnopqrstuvwxyz'') c of
        None \<Rightarrow> c | Some d \<Rightarrow> d)"

definition upper_char :: "char \<Rightarrow> char" where
  "upper_char c =
     (case map_of (zip ''abcdefghijklmnopqrstuvwxyz'' ''ABCDEFGHIJKLMNOPQRSTUVWXYZ'') c of
        None \<Rightarrow> c | Some d \<Rightarrow> d)"

text \<open>\<^verbatim>\<open>s.lower()\<close>\<close>

definition lower :: "string \<Rightarrow> string" where
  "lower s = map lower_char s"

text \<open>\<^verbatim>\<open>s.capitalize()\<close>: first character upper-cased, the rest lower-cased.\<close>

fun capitalize :: "string \<Rightarrow> string" where
  "capitalize [] = []"
| "capitalize (c # cs) = upper_char c # map lower_char cs"

fun startswith :: "string \<Rightarrow> string \<Rightarrow> bool" where
  "startswith s [] = True"
| "startswith [] (p # ps) = False"
| "startswith (c # cs) (p # ps) = (c = p \<and> startswith cs ps)"

text \<open>\<^verbatim>\<open>sub in s\<close>: \<open>sub\<close> occurs in \<open>s\<close> as a contiguous run; the empty string occurs
  in every string.\<close>

fun contains :: "string \<Rightarrow> string \<Rightarrow> bool" where
  "contains sub [] = (sub = [])"
| "contains sub (c # cs) = (startswith (c # cs) sub \<or> contains sub cs)"

text \<open>\<^verbatim>\<open>str(n)\<close> for an integer.\<close>

fun digits :: "nat \<Rightarrow> string" where
  "digits n =
     (if n < 10 then [''0123456789'' ! n]
      else digits (n div 10) @ [''0123456789'' ! (n mod 10)])"

definition str_int :: "int \<Rightarrow> string" where
  "str_int i = (if i < 0 then CHR ''-'' # digits (nat (- i)) else digits (nat i))"

subsection \<open>Tables\<close>

record date =
  year :: int
  month :: nat
  day :: nat

text \<open>One row of \<^verbatim>\<open>dim_customer\<close>: the columns the function reads.\<close>

record customer =
  customer_id :: nat
  loyalty_tier :: string
  country :: string
  total_flights :: int
  is_active :: bool
  preferred_class :: string
  date_of_birth :: date

text \<open>One row of \<^verbatim>\<open>fact_booking\<close>: the columns the function reads.\<close>

record booking =
  booking_customer_id :: nat
  booking_status :: string
  total_amount :: rat

text \<open>
  The working table \<^verbatim>\<open>filtered_customers\<close>. It starts as a copy of the input and stays a
  list of input rows until the age block assigns the column \<^verbatim>\<open>age\<close>; from then on every
  row carries its age as well.
\<close>

datatype dataframe = Plain "customer list" | WithAge "(customer \<times> int) list"

fun customers_of :: "dataframe \<Rightarrow> customer list" where
  "customers_of (Plain cs) = cs"
| "customers_of (WithAge rs) = map fst rs"

text \<open>\<^verbatim>\<open>df.columns\<close>, given the columns of the input table.\<close>

fun columns :: "string list \<Rightarrow> dataframe \<Rightarrow> string list" where
  "columns base (Plain cs) = base"
| "columns base (WithAge rs) = (if ''age'' \<in> set base then base else base @ [''age''])"

definition customer_columns :: "string list" where
  "customer_columns =
     [''customer_id'', ''loyalty_tier'', ''country'', ''total_flights'', ''is_active'',
      ''preferred_class'', ''date_of_birth'']"

text \<open>\<^verbatim>\<open>df[mask]\<close> with a mask computed from the input columns.\<close>

fun select :: "(customer \<Rightarrow> bool) \<Rightarrow> dataframe \<Rightarrow> dataframe" where
  "select P (Plain cs) = Plain (filter P cs)"
| "select P (WithAge rs) = WithAge (filter (\<lambda>r. P (fst r)) rs)"

text \<open>\<^verbatim>\<open>df['age'] = 2026 - pd.to_datetime(df['date_of_birth']).dt.year\<close>\<close>

definition age_of :: "customer \<Rightarrow> int" where
  "age_of c = 2026 - year (date_of_birth c)"

fun assign_age :: "dataframe \<Rightarrow> dataframe" where
  "assign_age (Plain cs) = WithAge (map (\<lambda>c. (c, age_of c)) cs)"
| "assign_age (WithAge rs) = WithAge (map (\<lambda>r. (fst r, age_of (fst r))) rs)"

text \<open>\<^verbatim>\<open>df[mask]\<close> with a mask computed from the column \<^verbatim>\<open>age\<close>; the column is always
  assigned just before, so a table without it does not occur and is left as it is.\<close>

fun select_age :: "(int \<Rightarrow> bool) \<Rightarrow> dataframe \<Rightarrow> dataframe" where
  "select_age P (Plain cs) = Plain cs"
| "select_age P (WithAge rs) = WithAge (filter (\<lambda>r. P (snd r)) rs)"

text \<open>\<^verbatim>\<open>Series.unique()\<close>: the distinct values in order of first appearance.\<close>

primrec unique_from :: "'a list \<Rightarrow> 'a list \<Rightarrow> 'a list" where
  "unique_from seen [] = []"
| "unique_from seen (x # xs) =
     (if x \<in> set seen then unique_from seen xs else x # unique_from (x # seen) xs)"

definition unique :: "'a list \<Rightarrow> 'a list" where
  "unique xs = unique_from [] xs"

text \<open>
  \<^verbatim>\<open>Series.quantile(0.75)\<close> with the default linear interpolation: on \<open>n\<close> sorted values
  the position is \<open>(n - 1) * 3 / 4\<close>, and the result interpolates between the two
  neighbouring values. On an empty series the result is NaN, here \<open>None\<close>.
\<close>

definition quantile75 :: "rat list \<Rightarrow> rat option" where
  "quantile75 xs =
     (if xs = [] then None
      else
        let s = sort xs;
            n = length xs;
            lo = (3 * (n - 1)) div 4;
            hi = min (lo + 1) (n - 1);
            frac = of_nat ((3 * (n - 1)) mod 4) / 4
        in Some (s ! lo + (s ! hi - s ! lo) * frac))"

text \<open>\<^verbatim>\<open>x >= threshold\<close>: every comparison with NaN is false.\<close>

fun ge_nan :: "rat \<Rightarrow> rat option \<Rightarrow> bool" where
  "ge_nan x None = False"
| "ge_nan x (Some t) = (t \<le> x)"

text \<open>\<^verbatim>\<open>int(x)\<close> on a float truncates towards zero.\<close>

definition trunc :: "rat \<Rightarrow> int" where
  "trunc r = (if 0 \<le> r then \<lfloor>r\<rfloor> else \<lceil>r\<rceil>)"

subsection \<open>The matchers\<close>

datatype py_error = ValueError

type_synonym segment = "dataframe \<times> string list"

definition loyalty_tiers :: "string list" where
  "loyalty_tiers = [''diamond'', ''platinum'', ''gold'', ''silver'', ''none'']"

text \<open>Lines 68-74: the loop over the tier keywords, left at the first keyword found.\<close>

fun tier_loop :: "string list \<Rightarrow> string \<Rightarrow> segment \<Rightarrow> segment" where
  "tier_loop [] prompt_lower s = s"
| "tier_loop (tier # rest) prompt_lower s =
     (if contains tier prompt_lower
      then (select (\<lambda>c. lower (loyalty_tier c) = tier) (fst s),
            snd s @ [''Loyalty tier: '' @ capitalize tier])
      else tier_loop rest prompt_lower s)"

definition tier_stage :: "string \<Rightarrow> segment \<Rightarrow> segment" where
  "tier_stage prompt_lower s = tier_loop loyalty_tiers prompt_lower s"

text \<open>Lines 80-86: the loop over the countries of the working table.\<close>

fun country_loop :: "string list \<Rightarrow> string \<Rightarrow> segment \<Rightarrow> segment" where
  "country_loop [] prompt_lower s = s"
| "country_loop (cn # rest) prompt_lower s =
     (if contains (lower cn) prompt_lower
      then (select (\<lambda>c. lower (country c) = lower cn) (fst s),
            snd s @ [''Country: '' @ cn])
      else country_loop rest prompt_lower s)"

text \<open>Lines 77-86. The list \<^verbatim>\<open>words\<close> of line 78 is never used.\<close>

definition country_stage :: "string \<Rightarrow> segment \<Rightarrow> segment" where
  "country_stage prompt_lower s =
     (if contains ''from'' prompt_lower \<or> contains ''in'' prompt_lower
         \<or> contains ''country'' prompt_lower
      then country_loop (unique (map country (customers_of (fst s)))) prompt_lower s
      else s)"

text \<open>
  Lines 89-94. The label is built with \<^verbatim>\<open>int(threshold)\<close>, which raises
  \<^verbatim>\<open>ValueError\<close> when the threshold is NaN.
\<close>

definition frequency_stage :: "string \<Rightarrow> segment \<Rightarrow> py_error + segment" where
  "frequency_stage prompt_lower s =
     (if contains ''frequent'' prompt_lower \<or> contains ''high'' prompt_lower
         \<or> contains ''many'' prompt_lower
      then
        let threshold = quantile75 (map (\<lambda>c. of_int (total_flights c)) (customers_of (fst s)));
            filtered = select (\<lambda>c. ge_nan (of_int (total_flights c)) threshold) (fst s)
        in (case threshold of
              None \<Rightarrow> Inl ValueError
            | Some t \<Rightarrow>
                Inr (filtered,
                     snd s @ [''Frequent flyers ('' @ [CHR 0xE2, CHR 0x89, CHR 0xA5]
                              @ str_int (trunc t) @ '' flights)'']))
      else Inr s)"

text \<open>Lines 96-100.\<close>

definition inactive_stage :: "string \<Rightarrow> segment \<Rightarrow> segment" where
  "inactive_stage prompt_lower s =
     (if contains ''inactive'' prompt_lower \<or> contains ''churned'' prompt_lower
      then (select (\<lambda>c. is_active c = False) (fst s), snd s @ [''Status: Inactive''])
      else s)"

text \<open>Lines 102-106.\<close>

definition active_stage :: "string \<Rightarrow> segment \<Rightarrow> segment" where
  "active_stage prompt_lower s =
     (if contains ''active'' prompt_lower \<and> \<not> contains ''inactive'' prompt_lower
      then (select (\<lambda>c. is_active c = True) (fst s), snd s @ [''Status: Active''])
      else s)"

definition cabin_classes :: "string list" where
  "cabin_classes = [''economy'', ''business'', ''first'', ''premium'']"

text \<open>Lines 110-116.\<close>

fun cabin_loop :: "string list \<Rightarrow> string \<Rightarrow> segment \<Rightarrow> segment" where
  "cabin_loop [] prompt_lower s = s"
| "cabin_loop (cabin # rest) prompt_lower s =
     (if contains cabin prompt_lower
      then (select (\<lambda>c. contains cabin (lower (preferred_class c))) (fst s),
            snd s @ [''Preferred class: '' @ capitalize cabin])
      else cabin_loop rest prompt_lower s)"

definition cabin_stage :: "string \<Rightarrow> segment \<Rightarrow> segment" where
  "cabin_stage prompt_lower s = cabin_loop cabin_classes prompt_lower s"

text \<open>Lines 119-126.\<close>

definition young_stage :: "string \<Rightarrow> segment \<Rightarrow> segment" where
  "young_stage prompt_lower s =
     (if contains ''young'' prompt_lower \<or> contains ''millennial'' prompt_lower
      then (select_age (\<lambda>a. 25 \<le> a \<and> a \<le> 40) (assign_age (fst s)), snd s @ [''Age: 25-40''])
      else s)"

text \<open>Lines 128-133.\<close>

definition senior_stage :: "string \<Rightarrow> segment \<Rightarrow> segment" where
  "senior_stage prompt_lower s =
     (if contains ''senior'' prompt_lower
      then (select_age (\<lambda>a. 65 \<le> a) (assign_age (fst s)), snd s @ [''Age: 65+''])
      else s)"

text \<open>
  Lines 137-139: \<^verbatim>\<open>groupby('customer_id')['total_amount'].sum()\<close> over the completed
  bookings, one entry per customer id, ids ascending.
\<close>

definition customer_spend :: "booking list \<Rightarrow> (nat \<times> rat) list" where
  "customer_spend bookings_df =
     (let completed = filter (\<lambda>b. booking_status b = ''Completed'') bookings_df
      in map (\<lambda>k. (k, sum_list (map total_amount
                                   (filter (\<lambda>b. booking_customer_id b = k) completed))))
             (sort (remdups (map booking_customer_id completed))))"

text \<open>Lines 141-143.\<close>

definition high_spenders :: "booking list \<Rightarrow> nat list" where
  "high_spenders bookings_df =
     (let spend = customer_spend bookings_df;
          q = quantile75 (map snd spend)
      in map fst (filter (\<lambda>kv. ge_nan (snd kv) q) spend))"

text \<open>Lines 136-148; \<open>None\<close> is \<^verbatim>\<open>bookings_df is None\<close>.\<close>

definition spend_stage :: "string \<Rightarrow> booking list option \<Rightarrow> segment \<Rightarrow> segment" where
  "spend_stage prompt_lower bookings_df s =
     (case bookings_df of
        None \<Rightarrow> s
      | Some bookings \<Rightarrow>
          if contains ''spend'' prompt_lower
          then (select (\<lambda>c. customer_id c \<in> set (high_spenders bookings)) (fst s),
                snd s @ [''High spenders (top 25%)''])
          else s)"

text \<open>Lines 150-151.\<close>

definition default_stage :: "segment \<Rightarrow> segment" where
  "default_stage s =
     (if snd s = [] then (fst s, [''All customers (no filters applied)'']) else s)"

text \<open>The blocks after the frequency block, none of which raises.\<close>

definition after_frequency :: "string \<Rightarrow> booking list option \<Rightarrow> segment \<Rightarrow> segment" where
  "after_frequency prompt_lower bookings_df s =
     default_stage
       (spend_stage prompt_lower bookings_df
         (senior_stage prompt_lower
           (young_stage prompt_lower
             (cabin_stage prompt_lower
               (active_stage prompt_lower
                 (inactive_stage prompt_lower s))))))"

definition parse_segment_prompt ::
    "string \<Rightarrow> customer list \<Rightarrow> booking list option \<Rightarrow> py_error + segment" where
  "parse_segment_prompt prompt customers_df bookings_df =
     (let prompt_lower = lower prompt;
          s0 = (Plain customers_df, []);
          s1 = tier_stage prompt_lower s0;
          s2 = country_stage prompt_lower s1
      in case frequency_stage prompt_lower s2 of
           Inl e \<Rightarrow> Inl e
         | Inr s3 \<Rightarrow> Inr (after_frequency prompt_lower bookings_df s3))"

subsection \<open>Notions used in the statements\<close>

text \<open>Whether the working table carries the column \<^verbatim>\<open>age\<close>.\<close>

fun has_age :: "dataframe \<Rightarrow> bool" where
  "has_age (Plain cs) = False"
| "has_age (WithAge rs) = True"

text \<open>The rows of \<open>s'\<close> are rows of \<open>s\<close>, input columns unchanged, in the same order.\<close>

definition narrows :: "segment \<Rightarrow> segment \<Rightarrow> bool" where
  "narrows s' s \<longleftrightarrow> subseq (customers_of (fst s')) (customers_of (fst s))"

text \<open>
  No block of the function takes its branch: the negation of each test of the source, in
  the order of the source. The country block counts as taken when its trigger holds and the
  name of some customer's country occurs in the request.
\<close>

definition no_matcher_fires :: "string \<Rightarrow> customer list \<Rightarrow> booking list option \<Rightarrow> bool" where
  "no_matcher_fires prompt customers_df bookings_df =
     (let pl = lower prompt in
        (\<forall>tier \<in> set loyalty_tiers. \<not> contains tier pl)
      \<and> \<not> ((contains ''from'' pl \<or> contains ''in'' pl \<or> contains ''country'' pl)
           \<and> (\<exists>c \<in> set customers_df. contains (lower (country c)) pl))
      \<and> \<not> (contains ''frequent'' pl \<or> contains ''high'' pl \<or> contains ''many'' pl)
      \<and> \<not> (contains ''inactive'' pl \<or> contains ''churned'' pl)
      \<and> \<not> (contains ''active'' pl \<and> \<not> contains ''inactive'' pl)
      \<and> (\<forall>cabin \<in> set cabin_classes. \<not> contains cabin pl)
      \<and> \<not> (contains ''young'' pl \<or> contains ''millennial'' pl)
      \<and> \<not> contains ''senior'' pl
      \<and> \<not> (bookings_df \<noteq> None \<and> contains ''spend'' pl))"

text \<open>
  The spend rule in the words of the specification: per customer id, the sum of the amounts
  of that customer's completed bookings, and the 75th percentile of these sums over all
  customers with a completed booking.
\<close>

definition completed :: "booking \<Rightarrow> bool" where
  "completed b = (booking_status b = ''Completed'')"

definition completed_ids :: "booking list \<Rightarrow> nat list" where
  "completed_ids bookings = sort (remdups (map booking_customer_id (filter completed bookings)))"

definition completed_total :: "booking list \<Rightarrow> nat \<Rightarrow> rat" where
  "completed_total bookings k =
     sum_list (map total_amount
       (filter (\<lambda>b. completed b \<and> booking_customer_id b = k) bookings))"

definition spend_threshold :: "booking list \<Rightarrow> rat option" where
  "spend_threshold bookings =
     quantile75 (map (completed_total bookings) (completed_ids bookings))"

text \<open>The default label of lines 150-151.\<close>

definition sentinel :: string where
  "sentinel = ''All customers (no filters applied)''"

text \<open>The blocks between the frequency block and the spend block (lines 96-133).\<close>

definition customer_side :: "string \<Rightarrow> segment \<Rightarrow> segment" where
  "customer_side pl s =
     senior_stage pl (young_stage pl (cabin_stage pl (active_stage pl (inactive_stage pl s))))"

text \<open>A sample row, for the concrete instances below.\<close>

definition customer_row ::
    "nat \<Rightarrow> string \<Rightarrow> string \<Rightarrow> int \<Rightarrow> bool \<Rightarrow> string \<Rightarrow> int \<Rightarrow> customer" where
  "customer_row i t c f a p y =
     \<lparr>customer_id = i, loyalty_tier = t, country = c, total_flights = f, is_active = a,
      preferred_class = p, date_of_birth = \<lparr>year = y, month = 1, day = 1\<rparr>\<rparr>"

text \<open>
  A sample population and bookings table for the spend rule. The completed totals of the
  customers 1 to 9 are 10, 20, ..., 90; customer 5 also has a cancelled booking and
  customer 10 has no completed booking.
\<close>

definition sample_customers :: "customer list" where
  "sample_customers =
     [customer_row 1 ''Silver'' ''UK'' 3 True ''Economy'' 1990,
      customer_row 2 ''Silver'' ''UK'' 4 True ''Economy'' 1991,
      customer_row 3 ''Silver'' ''USA'' 5 True ''Economy'' 1992,
      customer_row 4 ''Silver'' ''USA'' 6 True ''Economy'' 1993,
      customer_row 5 ''Gold'' ''UK'' 7 True ''Economy'' 1994,
      customer_row 6 ''Gold'' ''USA'' 8 True ''Economy'' 1995,
      customer_row 7 ''Gold'' ''UK'' 9 True ''Economy'' 1996,
      customer_row 8 ''Gold'' ''USA'' 10 True ''Economy'' 1997,
      customer_row 9 ''Silver'' ''UK'' 11 True ''Economy'' 1998,
      customer_row 10 ''Gold'' ''USA'' 12 True ''Economy'' 1999]"

definition sample_bookings :: "booking list" where
  "sample_bookings =
     [\<lparr>booking_customer_id = 1, booking_status = ''Completed'', total_amount = 10\<rparr>,
      \<lparr>booking_customer_id = 2, booking_status = ''Completed'', total_amount = 20\<rparr>,
      \<lparr>booking_customer_id = 3, booking_status = ''Completed'', total_amount = 30\<rparr>,
      \<lparr>booking_customer_id = 4, booking_status = ''Completed'', total_amount = 40\<rparr>,
      \<lparr>booking_customer_id = 5, booking_status = ''Completed'', total_amount = 50\<rparr>,
      \<lparr>booking_customer_id = 5, booking_status = ''Cancelled'', total_amount = 1000\<rparr>,
      \<lparr>booking_customer_id = 6, booking_status = ''Completed'', total_amount = 60\<rparr>,
      \<lparr>booking_customer_id = 7, booking_status = ''Completed'', total_amount = 30\<rparr>,
      \<lparr>booking_customer_id = 7, booking_status = ''Completed'', total_amount = 40\<rparr>,
      \<lparr>booking_customer_id = 8, booking_status = ''Completed'', total_amount = 80\<rparr>,
      \<lparr>booking_customer_id = 9, booking_status = ''Completed'', total_amount = 90\<rparr>,
      \<lparr>booking_customer_id = 10, booking_status = ''Pending'', total_amount = 500\<rparr>]"

section \<open>Properties\<close>

text \<open>The definitions unfolded to run the function on a concrete input.\<close>

lemmas run_defs = parse_segment_prompt_def Let_def lower_def lower_char_def upper_char_def
        tier_stage_def loyalty_tiers_def country_stage_def frequency_stage_def
        after_frequency_def inactive_stage_def active_stage_def cabin_stage_def
        cabin_classes_def young_stage_def senior_stage_def spend_stage_def
        default_stage_def unique_def quantile75_def trunc_def str_int_def age_of_def

subsection \<open>Every block only removes rows\<close>

lemma customers_of_select: "customers_of (select P df) = filter P (customers_of df)"
  by (cases df) (simp_all add: filter_map comp_def)

lemma customers_of_assign_age: "customers_of (assign_age df) = customers_of df"
  by (cases df) (simp_all add: comp_def)

lemma subseq_select_age: "subseq (customers_of (select_age P df)) (customers_of df)"
  by (cases df) (simp_all add: subseq_map)

lemma has_age_select: "has_age (select P df) = has_age df"
  by (cases df) simp_all

lemma has_age_assign_age: "has_age (assign_age df)"
  by (cases df) simp_all

lemma has_age_select_age: "has_age (select_age P df) = has_age df"
  by (cases df) simp_all

lemma columns_has_age:
  "columns base df = (if has_age df \<and> ''age'' \<notin> set base then base @ [''age''] else base)"
  by (cases df) simp_all

lemma narrows_refl: "narrows s s"
  by (simp add: narrows_def)

lemma narrows_trans: "narrows s'' s' \<Longrightarrow> narrows s' s \<Longrightarrow> narrows s'' s"
  unfolding narrows_def by (rule subseq_order.trans)

lemma narrows_select: "narrows (select P (fst s), cs) s"
  by (simp add: narrows_def customers_of_select)

lemma narrows_age: "narrows (select_age P (assign_age (fst s)), cs) s"
  using subseq_select_age [of P "assign_age (fst s)"]
  by (simp add: narrows_def customers_of_assign_age)

lemma tier_loop_narrows: "narrows (tier_loop ts pl s) s"
  by (induction ts) (simp_all add: narrows_refl narrows_select)

lemma country_loop_narrows: "narrows (country_loop ts pl s) s"
  by (induction ts) (simp_all add: narrows_refl narrows_select)

lemma cabin_loop_narrows: "narrows (cabin_loop ts pl s) s"
  by (induction ts) (simp_all add: narrows_refl narrows_select)

lemma tier_stage_narrows: "narrows (tier_stage pl s) s"
  by (simp add: tier_stage_def tier_loop_narrows)

lemma country_stage_narrows: "narrows (country_stage pl s) s"
  by (simp add: country_stage_def country_loop_narrows narrows_refl)

lemma frequency_stage_narrows: "frequency_stage pl s = Inr s' \<Longrightarrow> narrows s' s"
  by (auto simp: frequency_stage_def Let_def narrows_refl narrows_select
      split: if_splits option.splits)

lemma inactive_stage_narrows: "narrows (inactive_stage pl s) s"
  by (simp add: inactive_stage_def narrows_refl narrows_select)

lemma active_stage_narrows: "narrows (active_stage pl s) s"
  by (simp add: active_stage_def narrows_refl narrows_select)

lemma cabin_stage_narrows: "narrows (cabin_stage pl s) s"
  by (simp add: cabin_stage_def cabin_loop_narrows)

lemma young_stage_narrows: "narrows (young_stage pl s) s"
  by (simp add: young_stage_def narrows_refl narrows_age)

lemma senior_stage_narrows: "narrows (senior_stage pl s) s"
  by (simp add: senior_stage_def narrows_refl narrows_age)

lemma spend_stage_narrows: "narrows (spend_stage pl bk s) s"
  by (simp add: spend_stage_def narrows_refl narrows_select split: option.splits)

lemma default_stage_narrows: "narrows (default_stage s) s"
  by (simp add: default_stage_def narrows_def)

lemma after_frequency_narrows: "narrows (after_frequency pl bk s) s"
  unfolding after_frequency_def
  by (rule narrows_trans [OF default_stage_narrows]
      narrows_trans [OF spend_stage_narrows]
      narrows_trans [OF senior_stage_narrows]
      narrows_trans [OF young_stage_narrows]
      narrows_trans [OF cabin_stage_narrows]
      narrows_trans [OF active_stage_narrows]
      inactive_stage_narrows)+

lemma parse_segment_prompt_narrows:
  assumes "parse_segment_prompt prompt customers_df bookings_df = Inr s"
  shows "subseq (customers_of (fst s)) customers_df"
proof -
  let ?pl = "lower prompt"
  let ?s2 = "country_stage ?pl (tier_stage ?pl (Plain customers_df, []))"
  from assms obtain s3 where f: "frequency_stage ?pl ?s2 = Inr s3"
    and s: "s = after_frequency ?pl bookings_df s3"
    by (auto simp: parse_segment_prompt_def Let_def split: sum.splits)
  have "narrows ?s2 (Plain customers_df, [])"
    by (rule narrows_trans [OF country_stage_narrows tier_stage_narrows])
  moreover have "narrows s3 ?s2"
    using f by (rule frequency_stage_narrows)
  moreover have "narrows s s3"
    unfolding s by (rule after_frequency_narrows)
  ultimately have "narrows s (Plain customers_df, [])"
    by (metis narrows_trans)
  then show ?thesis by (simp add: narrows_def)
qed

lemma subseq_set_subset: "subseq xs ys \<Longrightarrow> set xs \<subseteq> set ys"
  by (auto elim: list_emb_set)


subsection \<open>The keyword loops stop at the first keyword found\<close>

lemma tier_loop_find:
  "tier_loop ts pl s =
     (case find (\<lambda>t. contains t pl) ts of
        None \<Rightarrow> s
      | Some t \<Rightarrow> (select (\<lambda>c. lower (loyalty_tier c) = t) (fst s),
                   snd s @ [''Loyalty tier: '' @ capitalize t]))"
  by (induction ts) simp_all

lemma country_loop_find:
  "country_loop cns pl s =
     (case find (\<lambda>cn. contains (lower cn) pl) cns of
        None \<Rightarrow> s
      | Some cn \<Rightarrow> (select (\<lambda>c. lower (country c) = lower cn) (fst s),
                   snd s @ [''Country: '' @ cn]))"
  by (induction cns) simp_all

lemma tier_loop_skip: "\<forall>t \<in> set ts. \<not> contains t pl \<Longrightarrow> tier_loop ts pl s = s"
  by (induction ts) simp_all

lemma cabin_loop_skip: "\<forall>t \<in> set ts. \<not> contains t pl \<Longrightarrow> cabin_loop ts pl s = s"
  by (induction ts) simp_all

lemma country_loop_skip: "\<forall>cn \<in> set cns. \<not> contains (lower cn) pl \<Longrightarrow> country_loop cns pl s = s"
  by (induction cns) simp_all

lemma set_unique_from: "set (unique_from seen xs) = set xs - set seen"
  by (induction xs arbitrary: seen) auto

lemma set_unique: "set (unique xs) = set xs"
  by (simp add: unique_def set_unique_from)

lemma country_stage_skip:
  assumes "\<not> ((contains ''from'' pl \<or> contains ''in'' pl \<or> contains ''country'' pl)
           \<and> (\<exists>c \<in> set (customers_of (fst s)). contains (lower (country c)) pl))"
  shows "country_stage pl s = s"
proof (cases "contains ''from'' pl \<or> contains ''in'' pl \<or> contains ''country'' pl")
  case True
  with assms have "\<forall>cn \<in> set (unique (map country (customers_of (fst s)))). \<not> contains (lower cn) pl"
    by (auto simp: set_unique)
  then have "country_loop (unique (map country (customers_of (fst s)))) pl s = s"
    by (rule country_loop_skip)
  with True show ?thesis by (simp add: country_stage_def)
next
  case False
  then show ?thesis by (simp add: country_stage_def)
qed

subsection \<open>The age column\<close>

lemma select_age_twice:
  "select_age Q (assign_age (select_age P (assign_age df))) =
   select_age (\<lambda>a. P a \<and> Q a) (assign_age df)"
  by (cases df) (simp_all add: filter_map comp_def age_of_def)

lemma select_age_none: "(\<And>a. \<not> P a) \<Longrightarrow> select_age P (assign_age df) = WithAge []"
  by (cases df) simp_all

lemma has_age_tier_loop: "has_age (fst (tier_loop ts pl s)) = has_age (fst s)"
  by (induction ts) (simp_all add: has_age_select)

lemma has_age_country_loop: "has_age (fst (country_loop ts pl s)) = has_age (fst s)"
  by (induction ts) (simp_all add: has_age_select)

lemma has_age_cabin_loop: "has_age (fst (cabin_loop ts pl s)) = has_age (fst s)"
  by (induction ts) (simp_all add: has_age_select)

lemma has_age_frequency_stage:
  "frequency_stage pl s = Inr s' \<Longrightarrow> has_age (fst s') = has_age (fst s)"
  by (auto simp: frequency_stage_def Let_def has_age_select split: if_splits option.splits)

lemma has_age_after_frequency:
  "has_age (fst (after_frequency pl bk s)) =
     (has_age (fst s) \<or> contains ''young'' pl \<or> contains ''millennial'' pl
        \<or> contains ''senior'' pl)"
  by (simp add: after_frequency_def default_stage_def spend_stage_def senior_stage_def
      young_stage_def cabin_stage_def active_stage_def inactive_stage_def
      has_age_select has_age_select_age has_age_assign_age has_age_cabin_loop
      split: option.split)

lemma has_age_parse_segment_prompt:
  assumes "parse_segment_prompt prompt customers_df bookings_df = Inr s"
  shows "has_age (fst s) =
           (contains ''young'' (lower prompt) \<or> contains ''millennial'' (lower prompt)
              \<or> contains ''senior'' (lower prompt))"
proof -
  let ?pl = "lower prompt"
  let ?s2 = "country_stage ?pl (tier_stage ?pl (Plain customers_df, []))"
  from assms obtain s3 where f: "frequency_stage ?pl ?s2 = Inr s3"
    and s: "s = after_frequency ?pl bookings_df s3"
    by (auto simp: parse_segment_prompt_def Let_def split: sum.splits)
  have "\<not> has_age (fst ?s2)"
    by (simp add: country_stage_def tier_stage_def has_age_country_loop has_age_tier_loop)
  with has_age_frequency_stage [OF f] have "\<not> has_age (fst s3)"
    by simp
  then show ?thesis
    unfolding s by (simp add: has_age_after_frequency)
qed

subsection \<open>The spend rule\<close>

lemma customer_spend_eq:
  "customer_spend bookings =
     map (\<lambda>k. (k, completed_total bookings k)) (completed_ids bookings)"
  by (simp add: customer_spend_def Let_def completed_total_def completed_ids_def
      completed_def [abs_def])

lemma set_high_spenders:
  "set (high_spenders bookings) =
     {k \<in> set (completed_ids bookings). ge_nan (completed_total bookings k) (spend_threshold bookings)}"
proof -
  have "high_spenders bookings =
          filter (\<lambda>k. ge_nan (completed_total bookings k) (spend_threshold bookings))
            (completed_ids bookings)"
    by (simp add: high_spenders_def Let_def customer_spend_eq spend_threshold_def
        filter_map comp_def)
  then show ?thesis
    by auto
qed

lemma select_cong: "(\<And>c. P c = Q c) \<Longrightarrow> select P df = select Q df"
proof -
  assume "\<And>c. P c = Q c"
  then have "P = Q" by (simp add: fun_eq_iff)
  then show ?thesis by simp
qed

subsection \<open>The 75th percentile\<close>

lemma sorted_count_ge:
  fixes s :: "rat list"
  assumes "sorted s" and "i < length s" and "t \<le> s ! i"
  shows "length s - i \<le> length (filter (\<lambda>x. t \<le> x) s)"
proof -
  have "\<forall>x \<in> set (drop i s). t \<le> x"
  proof
    fix x assume "x \<in> set (drop i s)"
    then obtain j where "j < length s - i" and "x = s ! (i + j)"
      by (auto simp: in_set_conv_nth)
    moreover from \<open>j < length s - i\<close> have "i + j < length s" by simp
    then have "s ! i \<le> s ! (i + j)"
      using assms(1) by (intro sorted_nth_mono) simp_all
    ultimately show "t \<le> x"
      using assms(3) by simp
  qed
  then have "filter (\<lambda>x. t \<le> x) (drop i s) = drop i s"
    by simp
  moreover have "filter (\<lambda>x. t \<le> x) s =
      filter (\<lambda>x. t \<le> x) (take i s) @ filter (\<lambda>x. t \<le> x) (drop i s)"
    by (metis append_take_drop_id filter_append)
  ultimately show ?thesis by simp
qed

lemma sorted_count_le:
  fixes s :: "rat list"
  assumes "sorted s" and "i < length s" and "s ! i \<le> t"
  shows "Suc i \<le> length (filter (\<lambda>x. x \<le> t) s)"
proof -
  have "\<forall>x \<in> set (take (Suc i) s). x \<le> t"
  proof
    fix x assume "x \<in> set (take (Suc i) s)"
    then obtain j where "j < Suc i" and "x = s ! j"
      using assms(2) by (auto simp: in_set_conv_nth)
    moreover from \<open>j < Suc i\<close> have "s ! j \<le> s ! i"
      using assms(1,2) by (intro sorted_nth_mono) simp_all
    ultimately show "x \<le> t"
      using assms(3) by simp
  qed
  then have "filter (\<lambda>x. x \<le> t) (take (Suc i) s) = take (Suc i) s"
    by simp
  moreover have "filter (\<lambda>x. x \<le> t) s =
      filter (\<lambda>x. x \<le> t) (take (Suc i) s) @ filter (\<lambda>x. x \<le> t) (drop (Suc i) s)"
    by (metis append_take_drop_id filter_append)
  ultimately show ?thesis using assms(2) by simp
qed

lemma length_filter_sort:
  "length (filter P (sort xs)) = length (filter P xs)"
  by (simp add: filter_sort)

lemma interpolation_between:
  fixes a b f :: rat
  assumes "a \<le> b" and "0 \<le> f" and "f \<le> 1"
  shows "a \<le> a + (b - a) * f" and "a + (b - a) * f \<le> b"
proof -
  from assms show "a \<le> a + (b - a) * f" by simp
  have "(b - a) * f \<le> (b - a) * 1"
    using assms by (intro mult_left_mono) simp_all
  then show "a + (b - a) * f \<le> b" by simp
qed

lemma quarter_above_index:
  fixes n :: nat
  assumes "0 < n" and "(3 * (n - 1)) mod 4 \<noteq> 0"
  shows "n \<le> 4 * (n - min ((3 * (n - 1)) div 4 + 1) (n - 1))"
proof -
  define q where "q = (3 * (n - 1)) div 4"
  define r where "r = (3 * (n - 1)) mod 4"
  have "3 * (n - 1) = 4 * q + r"
    by (simp add: q_def r_def)
  moreover have "r < 4" by (simp add: r_def)
  moreover have "r \<noteq> 0" using assms(2) by (simp add: r_def)
  ultimately have "n \<le> 4 * (n - min (q + 1) (n - 1))"
    using assms(1) by (simp add: min_def)
  then show ?thesis by (simp add: q_def)
qed

lemma quarter_at_index:
  fixes n :: nat
  assumes "0 < n" and "(3 * (n - 1)) mod 4 = 0"
  shows "n \<le> 4 * (n - (3 * (n - 1)) div 4)"
proof -
  define q where "q = (3 * (n - 1)) div 4"
  have "3 * (n - 1) = 4 * q"
    using assms(2) by (auto simp: q_def)
  then have "n \<le> 4 * (n - q)"
    using assms(1) by linarith
  then show ?thesis by (simp add: q_def)
qed

lemma three_quarters_below_index:
  fixes n :: nat
  shows "3 * (n - 1) < 4 * Suc ((3 * (n - 1)) div 4)"
proof -
  define q where "q = (3 * (n - 1)) div 4"
  define r where "r = (3 * (n - 1)) mod 4"
  have "3 * (n - 1) = 4 * q + r"
    by (simp add: q_def r_def)
  moreover have "r < 4" by (simp add: r_def)
  ultimately have "3 * (n - 1) < 4 * Suc q"
    by simp
  then show ?thesis by (simp add: q_def)
qed

lemma quantile75_top_quarter:
  assumes "quantile75 xs = Some t"
  shows "length xs \<le> 4 * length (filter (\<lambda>x. t \<le> x) xs)"
    and "3 * (length xs - 1) < 4 * length (filter (\<lambda>x. x \<le> t) xs)"
proof -
  let ?s = "sort xs"
  let ?n = "length xs"
  let ?lo = "(3 * (?n - 1)) div 4"
  let ?hi = "min (?lo + 1) (?n - 1)"
  let ?f = "of_nat ((3 * (?n - 1)) mod 4) / 4 :: rat"
  from assms have ne: "xs \<noteq> []" and t: "t = ?s ! ?lo + (?s ! ?hi - ?s ! ?lo) * ?f"
    by (auto simp: quantile75_def Let_def split: if_splits)
  from ne have n: "0 < ?n" by simp
  have lo: "?lo < ?n" using n by presburger
  have "?hi \<le> ?n - 1" by simp
  then have hi: "?hi < ?n" using n by linarith
  have lohi: "?lo \<le> ?hi" using lo by simp
  have ab: "?s ! ?lo \<le> ?s ! ?hi"
    using lohi hi by (intro sorted_nth_mono) simp_all
  have f0: "0 \<le> ?f" by simp
  have "(3 * (?n - 1)) mod 4 < 4" by simp
  then have f1: "?f \<le> 1" by simp
  show "length xs \<le> 4 * length (filter (\<lambda>x. t \<le> x) xs)"
  proof (cases "(3 * (?n - 1)) mod 4 = 0")
    case True
    then have "t = ?s ! ?lo" using t by simp
    then have "?n - ?lo \<le> length (filter (\<lambda>x. t \<le> x) ?s)"
      using lo sorted_count_ge [of ?s ?lo t] by simp
    then have "?n - ?lo \<le> length (filter (\<lambda>x. t \<le> x) xs)"
      by (simp add: length_filter_sort)
    moreover have "?n \<le> 4 * (?n - ?lo)" using n True by (rule quarter_at_index)
    ultimately show ?thesis by linarith
  next
    case False
    have "t \<le> ?s ! ?hi"
      unfolding t using ab f0 f1 by (rule interpolation_between)
    then have "?n - ?hi \<le> length (filter (\<lambda>x. t \<le> x) ?s)"
      using hi sorted_count_ge [of ?s ?hi t] by simp
    then have "?n - ?hi \<le> length (filter (\<lambda>x. t \<le> x) xs)"
      by (simp add: length_filter_sort)
    moreover have "?n \<le> 4 * (?n - ?hi)" using n False by (rule quarter_above_index)
    ultimately show ?thesis by linarith
  qed
  have "?s ! ?lo \<le> t"
    unfolding t using ab f0 f1 by (rule interpolation_between)
  then have "Suc ?lo \<le> length (filter (\<lambda>x. x \<le> t) ?s)"
    using lo sorted_count_le [of ?s ?lo t] by simp
  then have "Suc ?lo \<le> length (filter (\<lambda>x. x \<le> t) xs)"
    by (simp add: length_filter_sort)
  moreover have "3 * (?n - 1) < 4 * Suc ?lo" by (rule three_quarters_below_index)
  ultimately show "3 * (length xs - 1) < 4 * length (filter (\<lambda>x. x \<le> t) xs)"
    by linarith
qed

subsection \<open>A run with bookings against the run without\<close>

lemma tier_loop_labels: "sentinel \<notin> set (snd s) \<Longrightarrow> sentinel \<notin> set (snd (tier_loop ts pl s))"
  by (induction ts) (simp_all add: sentinel_def)

lemma country_loop_labels: "sentinel \<notin> set (snd s) \<Longrightarrow> sentinel \<notin> set (snd (country_loop ts pl s))"
  by (induction ts) (simp_all add: sentinel_def)

lemma cabin_loop_labels: "sentinel \<notin> set (snd s) \<Longrightarrow> sentinel \<notin> set (snd (cabin_loop ts pl s))"
  by (induction ts) (simp_all add: sentinel_def)

lemma frequency_stage_labels:
  "frequency_stage pl s = Inr s' \<Longrightarrow> sentinel \<notin> set (snd s) \<Longrightarrow> sentinel \<notin> set (snd s')"
  by (auto simp: frequency_stage_def Let_def sentinel_def split: if_splits option.splits)

lemma inactive_stage_labels:
  "sentinel \<notin> set (snd s) \<Longrightarrow> sentinel \<notin> set (snd (inactive_stage pl s))"
  by (simp add: inactive_stage_def sentinel_def)

lemma active_stage_labels:
  "sentinel \<notin> set (snd s) \<Longrightarrow> sentinel \<notin> set (snd (active_stage pl s))"
  by (simp add: active_stage_def sentinel_def)

lemma cabin_stage_labels:
  "sentinel \<notin> set (snd s) \<Longrightarrow> sentinel \<notin> set (snd (cabin_stage pl s))"
  by (simp add: cabin_stage_def cabin_loop_labels)

lemma young_stage_labels:
  "sentinel \<notin> set (snd s) \<Longrightarrow> sentinel \<notin> set (snd (young_stage pl s))"
  by (simp add: young_stage_def sentinel_def)

lemma senior_stage_labels:
  "sentinel \<notin> set (snd s) \<Longrightarrow> sentinel \<notin> set (snd (senior_stage pl s))"
  by (simp add: senior_stage_def sentinel_def)

lemma tier_stage_labels:
  "sentinel \<notin> set (snd s) \<Longrightarrow> sentinel \<notin> set (snd (tier_stage pl s))"
  by (simp add: tier_stage_def tier_loop_labels)

lemma country_stage_labels:
  "sentinel \<notin> set (snd s) \<Longrightarrow> sentinel \<notin> set (snd (country_stage pl s))"
  by (simp add: country_stage_def country_loop_labels)

lemma customer_side_labels:
  "sentinel \<notin> set (snd s) \<Longrightarrow> sentinel \<notin> set (snd (customer_side pl s))"
  unfolding customer_side_def
  by (intro senior_stage_labels young_stage_labels cabin_stage_labels active_stage_labels
      inactive_stage_labels)

lemma after_frequency_without_bookings:
  "after_frequency pl None s = default_stage (customer_side pl s)"
  by (simp add: after_frequency_def customer_side_def spend_stage_def)

lemma after_frequency_with_spend:
  "contains ''spend'' pl \<Longrightarrow>
   after_frequency pl (Some bookings) s =
     (select (\<lambda>c. customer_id c \<in> set (high_spenders bookings)) (fst (customer_side pl s)),
      snd (customer_side pl s) @ [''High spenders (top 25%)''])"
  by (simp add: after_frequency_def customer_side_def spend_stage_def default_stage_def)

lemma strip_default_stage:
  "sentinel \<notin> set (snd s) \<Longrightarrow>
   filter (\<lambda>l. l \<noteq> sentinel) (snd (default_stage s)) = snd s"
  by (auto simp: default_stage_def sentinel_def [symmetric] filter_id_conv)

lemma high_spender_iff:
  "customer_id c \<in> set (high_spenders bookings) \<longleftrightarrow>
     customer_id c \<in> set (completed_ids bookings)
     \<and> (\<exists>t. spend_threshold bookings = Some t
              \<and> t \<le> completed_total bookings (customer_id c))"
  by (cases "spend_threshold bookings") (simp_all add: set_high_spenders)

lemma spend_run:
  assumes "contains ''spend'' (lower prompt)"
  shows "parse_segment_prompt prompt customers_df (Some bookings) =
     (case parse_segment_prompt prompt customers_df None of
        Inl e \<Rightarrow> Inl e
      | Inr (narrowed, conds) \<Rightarrow>
          Inr (select (\<lambda>c. customer_id c \<in> set (completed_ids bookings)
                          \<and> (\<exists>t. spend_threshold bookings = Some t
                                   \<and> t \<le> completed_total bookings (customer_id c)))
                 narrowed,
               filter (\<lambda>l. l \<noteq> ''All customers (no filters applied)'') conds
                 @ [''High spenders (top 25%)'']))"
proof -
  let ?pl = "lower prompt"
  let ?s2 = "country_stage ?pl (tier_stage ?pl (Plain customers_df, []))"
  have s2: "sentinel \<notin> set (snd ?s2)"
    by (intro country_stage_labels tier_stage_labels) simp
  show ?thesis
  proof (cases "frequency_stage ?pl ?s2")
    case (Inl e)
    then show ?thesis by (simp add: parse_segment_prompt_def Let_def)
  next
    case (Inr s3)
    then have "sentinel \<notin> set (snd s3)"
      using s2 by (rule frequency_stage_labels)
    then have lab: "sentinel \<notin> set (snd (customer_side ?pl s3))"
      by (rule customer_side_labels)
    have none: "parse_segment_prompt prompt customers_df None =
        Inr (fst (customer_side ?pl s3), snd (default_stage (customer_side ?pl s3)))"
      using Inr
      by (simp add: parse_segment_prompt_def Let_def after_frequency_without_bookings
          default_stage_def)
    have some: "parse_segment_prompt prompt customers_df (Some bookings) =
        Inr (select (\<lambda>c. customer_id c \<in> set (high_spenders bookings))
               (fst (customer_side ?pl s3)),
             snd (customer_side ?pl s3) @ [''High spenders (top 25%)''])"
      using Inr assms
      by (simp add: parse_segment_prompt_def Let_def after_frequency_with_spend)
    have sel: "select (\<lambda>c. customer_id c \<in> set (high_spenders bookings))
                 (fst (customer_side ?pl s3)) =
               select (\<lambda>c. customer_id c \<in> set (completed_ids bookings)
                          \<and> (\<exists>t. spend_threshold bookings = Some t
                                   \<and> t \<le> completed_total bookings (customer_id c)))
                 (fst (customer_side ?pl s3))"
      by (rule select_cong) (rule high_spender_iff)
    show ?thesis
      using strip_default_stage [OF lab]
      by (simp add: none some sel sentinel_def)
  qed
qed

subsection \<open>The claims\<close>

text \<open>
  C1. Whatever the request, the customer table and the bookings, the rows that
  \<^verbatim>\<open>parse_segment_prompt\<close> returns are rows of the input table with their input fields
  unchanged: the returned rows form a subsequence of the input rows, hence a subset.
\<close>

theorem segment_is_subset_of_population:
  "parse_segment_prompt prompt customers_df bookings_df = Inr (df, conditions) \<Longrightarrow>
     subseq (customers_of df) customers_df \<and> set (customers_of df) \<subseteq> set customers_df"
  using parse_segment_prompt_narrows [of prompt customers_df bookings_df "(df, conditions)"]
  by (simp add: subseq_set_subset)

theorem segment_is_subset_of_population_witness:
  "parse_segment_prompt ''Gold members''
     [customer_row 1 ''Gold'' ''USA'' 50 True ''Economy'' 1990,
      customer_row 2 ''Silver'' ''UK'' 7 True ''Business'' 1950] None
   = Inr (Plain [customer_row 1 ''Gold'' ''USA'' 50 True ''Economy'' 1990],
          [''Loyalty tier: Gold''])
   \<and> subseq [customer_row 1 ''Gold'' ''USA'' 50 True ''Economy'' 1990]
        [customer_row 1 ''Gold'' ''USA'' 50 True ''Economy'' 1990,
         customer_row 2 ''Silver'' ''UK'' 7 True ''Business'' 1950]
   \<and> set [customer_row 1 ''Gold'' ''USA'' 50 True ''Economy'' 1990]
        \<subseteq> set [customer_row 1 ''Gold'' ''USA'' 50 True ''Economy'' 1990,
                 customer_row 2 ''Silver'' ''UK'' 7 True ''Business'' 1950]"
proof -
  have run: "parse_segment_prompt ''Gold members''
     [customer_row 1 ''Gold'' ''USA'' 50 True ''Economy'' 1990,
      customer_row 2 ''Silver'' ''UK'' 7 True ''Business'' 1950] None
   = Inr (Plain [customer_row 1 ''Gold'' ''USA'' 50 True ''Economy'' 1990],
          [''Loyalty tier: Gold''])"
    by (simp add: parse_segment_prompt_def Let_def lower_def lower_char_def upper_char_def
        tier_stage_def loyalty_tiers_def country_stage_def frequency_stage_def
        after_frequency_def inactive_stage_def active_stage_def cabin_stage_def
        cabin_classes_def young_stage_def senior_stage_def spend_stage_def
        default_stage_def customer_row_def)
  from segment_is_subset_of_population [OF run] run show ?thesis
    by simp
qed

text \<open>
  C2. On the four-customer population of the specification (the fields it does not fix are
  arbitrary, as are the bookings), the request "Show me gold customers from USA who fly
  frequently" returns exactly the fourth customer, with the three conditions for tier,
  country and frequency; the threshold 55 is the 75th percentile of the flight counts
  50, 5, 60 of the three rows left by the tier and country blocks.
\<close>

theorem end_to_end_example:
  "parse_segment_prompt ''Show me gold customers from USA who fly frequently''
     [\<lparr>customer_id = i1, loyalty_tier = ''Gold'', country = ''USA'', total_flights = 50,
        is_active = True, preferred_class = p1, date_of_birth = d1\<rparr>,
      \<lparr>customer_id = i2, loyalty_tier = ''Gold'', country = ''USA'', total_flights = 5,
        is_active = False, preferred_class = p2, date_of_birth = d2\<rparr>,
      \<lparr>customer_id = i3, loyalty_tier = ''Platinum'', country = ''UK'', total_flights = 80,
        is_active = True, preferred_class = p3, date_of_birth = d3\<rparr>,
      \<lparr>customer_id = i4, loyalty_tier = ''Gold'', country = ''USA'', total_flights = 60,
        is_active = True, preferred_class = p4, date_of_birth = d4\<rparr>]
     bookings_df
   = Inr (Plain [\<lparr>customer_id = i4, loyalty_tier = ''Gold'', country = ''USA'',
                   total_flights = 60, is_active = True, preferred_class = p4,
                   date_of_birth = d4\<rparr>],
          [''Loyalty tier: Gold'', ''Country: USA'',
           ''Frequent flyers ('' @ [CHR 0xE2, CHR 0x89, CHR 0xA5] @ ''55 flights)''])
   \<and> quantile75 (map of_int [50, 5, 60]) = Some 55"
  by (cases bookings_df) (simp_all add: run_defs)

text \<open>
  C3. The claim is that at most one of the two activity filters is ever applied, also on a
  request with "churned" and "active" and without "inactive". The source tests the two
  rules in two separate \<^verbatim>\<open>if\<close> statements; the guard of the second, which keeps the
  active filter off when the inactive rule fires, names only the word "inactive" and omits
  "churned", the other trigger of the first. On such a request both filters run, both
  labels are appended and no row is left.
\<close>

theorem churned_and_active_both_applied:
  "contains ''churned'' (lower ''churned active'') \<and> contains ''active'' (lower ''churned active'')
   \<and> \<not> contains ''inactive'' (lower ''churned active'')
   \<and> parse_segment_prompt ''churned active''
       [customer_row 1 ''Gold'' ''USA'' 50 True ''Economy'' 1990,
        customer_row 2 ''Silver'' ''UK'' 7 False ''Business'' 1950] None
     = Inr (Plain [], [''Status: Inactive'', ''Status: Active''])
   \<and> parse_segment_prompt ''Show churned customers who used to be active''
       [customer_row 1 ''Gold'' ''USA'' 50 True ''Economy'' 1990,
        customer_row 2 ''Silver'' ''UK'' 7 False ''Business'' 1950] None
     = Inr (Plain [], [''Status: Inactive'', ''Status: Active''])
   \<and> parse_segment_prompt ''inactive or active''
       [customer_row 1 ''Gold'' ''USA'' 50 True ''Economy'' 1990,
        customer_row 2 ''Silver'' ''UK'' 7 False ''Business'' 1950] None
     = Inr (Plain [customer_row 2 ''Silver'' ''UK'' 7 False ''Business'' 1950],
            [''Status: Inactive''])"
  by (simp add: run_defs customer_row_def)

text \<open>
  C4, as stated, fails: the claim is that the senior filter is never applied once the
  young/millennial branch has fired. On the request "young senior" a thirty-year-old
  customer passes the first branch and is then removed by the senior filter, and both
  conditions are recorded.
\<close>

theorem senior_after_young_counterexample:
  "contains ''young'' (lower ''young senior'')
   \<and> parse_segment_prompt ''young senior''
     [customer_row 1 ''Gold'' ''USA'' 50 True ''Economy'' 1996] None
   = Inr (WithAge [], [''Age: 25-40'', ''Age: 65+''])"
  by (simp add: run_defs customer_row_def)

text \<open>
  C4, amended. The two age branches are independent \<^verbatim>\<open>if\<close> statements: whenever "senior"
  occurs in the request the senior filter is applied, also after the young/millennial
  branch has fired. A request that fires both keeps the rows with age between 25 and 40 and
  at least 65, that is none, and appends both conditions in this order; a request with
  "senior" alone keeps the rows of age at least 65.
\<close>

theorem senior_applies_after_young:
  "contains ''senior'' pl \<Longrightarrow>
   senior_stage pl (young_stage pl (df, conditions)) =
     (if contains ''young'' pl \<or> contains ''millennial'' pl
      then (WithAge [], conditions @ [''Age: 25-40'', ''Age: 65+''])
      else (select_age (\<lambda>a. 65 \<le> a) (assign_age df), conditions @ [''Age: 65+'']))"
  by (simp add: senior_stage_def young_stage_def select_age_twice select_age_none)

theorem senior_applies_after_young_witness:
  "contains ''senior'' ''young senior''
   \<and> senior_stage ''young senior'' (young_stage ''young senior''
        (Plain [customer_row 1 ''Gold'' ''USA'' 50 True ''Economy'' 1996], []))
      = (WithAge [], [''Age: 25-40'', ''Age: 65+''])"
proof -
  have h: "contains ''senior'' ''young senior''"
    by simp
  from senior_applies_after_young [OF h,
      of "Plain [customer_row 1 ''Gold'' ''USA'' 50 True ''Economy'' 1996]" "[]"]
  show ?thesis
    using h by simp
qed

text \<open>
  C5. On a request that contains "spend", the run with a bookings table returns the run
  without bookings (the customer-side narrowing) restricted to the customers that have a
  completed booking and whose sum of completed amounts is at or above the threshold, and
  appends the label "High spenders (top 25%)" to the labels of that run. The threshold is
  the 75th percentile of the per-customer sums of completed amounts over the whole bookings
  table: it does not depend on the customer table or on the narrowing; it is undefined
  exactly when there is no completed booking; at least a quarter of the customers with a
  completed booking are at or above it, and more than three quarters of their number less
  one are at or below it. Selection only removes rows, so a customer removed by an earlier
  block stays removed.
\<close>

theorem spend_request_keeps_high_spenders:
  assumes "contains ''spend'' (lower prompt)"
  shows "parse_segment_prompt prompt customers_df (Some bookings) =
     (case parse_segment_prompt prompt customers_df None of
        Inl e \<Rightarrow> Inl e
      | Inr (narrowed, conds) \<Rightarrow>
          Inr (select (\<lambda>c. customer_id c \<in> set (completed_ids bookings)
                          \<and> (\<exists>t. spend_threshold bookings = Some t
                                   \<and> t \<le> completed_total bookings (customer_id c)))
                 narrowed,
               filter (\<lambda>l. l \<noteq> ''All customers (no filters applied)'') conds
                 @ [''High spenders (top 25%)'']))
   \<and> (spend_threshold bookings = None \<longleftrightarrow> completed_ids bookings = [])
   \<and> (\<forall>t. spend_threshold bookings = Some t \<longrightarrow>
          length (completed_ids bookings)
            \<le> 4 * length (filter (\<lambda>k. t \<le> completed_total bookings k)
                             (completed_ids bookings))
        \<and> 3 * (length (completed_ids bookings) - 1)
            < 4 * length (filter (\<lambda>k. completed_total bookings k \<le> t)
                            (completed_ids bookings)))"
proof (intro conjI allI impI)
  show "parse_segment_prompt prompt customers_df (Some bookings) =
     (case parse_segment_prompt prompt customers_df None of
        Inl e \<Rightarrow> Inl e
      | Inr (narrowed, conds) \<Rightarrow>
          Inr (select (\<lambda>c. customer_id c \<in> set (completed_ids bookings)
                          \<and> (\<exists>t. spend_threshold bookings = Some t
                                   \<and> t \<le> completed_total bookings (customer_id c)))
                 narrowed,
               filter (\<lambda>l. l \<noteq> ''All customers (no filters applied)'') conds
                 @ [''High spenders (top 25%)'']))"
    using assms by (rule spend_run)
next
  show "spend_threshold bookings = None \<longleftrightarrow> completed_ids bookings = []"
    by (simp add: spend_threshold_def quantile75_def Let_def)
next
  fix t assume t: "spend_threshold bookings = Some t"
  then have q: "quantile75 (map (completed_total bookings) (completed_ids bookings)) = Some t"
    by (simp add: spend_threshold_def)
  from quantile75_top_quarter(1) [OF q]
  show "length (completed_ids bookings)
            \<le> 4 * length (filter (\<lambda>k. t \<le> completed_total bookings k)
                             (completed_ids bookings))"
    by (simp add: comp_def)
  from quantile75_top_quarter(2) [OF q]
  show "3 * (length (completed_ids bookings) - 1)
            < 4 * length (filter (\<lambda>k. completed_total bookings k \<le> t)
                            (completed_ids bookings))"
    by (simp add: comp_def)
qed

theorem spend_request_keeps_high_spenders_witness:
  "contains ''spend'' (lower ''Gold customers by spend'')
   \<and> spend_threshold sample_bookings = Some 70
   \<and> parse_segment_prompt ''Gold customers by spend'' sample_customers None
       = Inr (Plain [customer_row 5 ''Gold'' ''UK'' 7 True ''Economy'' 1994,
                     customer_row 6 ''Gold'' ''USA'' 8 True ''Economy'' 1995,
                     customer_row 7 ''Gold'' ''UK'' 9 True ''Economy'' 1996,
                     customer_row 8 ''Gold'' ''USA'' 10 True ''Economy'' 1997,
                     customer_row 10 ''Gold'' ''USA'' 12 True ''Economy'' 1999],
              [''Loyalty tier: Gold''])
   \<and> parse_segment_prompt ''Gold customers by spend'' sample_customers (Some sample_bookings)
       = Inr (Plain [customer_row 7 ''Gold'' ''UK'' 9 True ''Economy'' 1996,
                     customer_row 8 ''Gold'' ''USA'' 10 True ''Economy'' 1997],
              [''Loyalty tier: Gold'', ''High spenders (top 25%)''])"
proof -
  have h: "contains ''spend'' (lower ''Gold customers by spend'')"
    by (simp add: lower_def lower_char_def)
  have ids: "completed_ids sample_bookings = [1, 2, 3, 4, 5, 6, 7, 8, 9]"
    by (simp add: completed_ids_def completed_def sample_bookings_def)
  have totals: "map (completed_total sample_bookings) [1, 2, 3, 4, 5, 6, 7, 8, 9, 10]
                  = [10, 20, 30, 40, 50, 60, 70, 80, 90, 0]"
    by (simp add: completed_total_def completed_def sample_bookings_def)
  have thr: "spend_threshold sample_bookings = Some 70"
    using totals by (simp add: spend_threshold_def ids quantile75_def)
  have none: "parse_segment_prompt ''Gold customers by spend'' sample_customers None
       = Inr (Plain [customer_row 5 ''Gold'' ''UK'' 7 True ''Economy'' 1994,
                     customer_row 6 ''Gold'' ''USA'' 8 True ''Economy'' 1995,
                     customer_row 7 ''Gold'' ''UK'' 9 True ''Economy'' 1996,
                     customer_row 8 ''Gold'' ''USA'' 10 True ''Economy'' 1997,
                     customer_row 10 ''Gold'' ''USA'' 12 True ''Economy'' 1999],
              [''Loyalty tier: Gold''])"
    by (simp add: run_defs sample_customers_def customer_row_def)
  from spend_request_keeps_high_spenders [OF h, of sample_customers sample_bookings]
  have "parse_segment_prompt ''Gold customers by spend'' sample_customers (Some sample_bookings)
       = Inr (Plain [customer_row 7 ''Gold'' ''UK'' 9 True ''Economy'' 1996,
                     customer_row 8 ''Gold'' ''USA'' 10 True ''Economy'' 1997],
              [''Loyalty tier: Gold'', ''High spenders (top 25%)''])"
    using totals by (simp add: none thr ids customer_row_def)
  with h thr none show ?thesis
    by simp
qed

text \<open>
  C6. The tier block applies the restriction of the first keyword of the list diamond,
  platinum, gold, silver, none that occurs in the lower-cased request, and appends that one
  condition; without such a keyword it changes nothing. In particular a request with both
  "gold" and "platinum" (and no "diamond", which precedes both) is restricted to Platinum
  only.
\<close>

theorem tier_first_keyword_only:
  "tier_stage (lower prompt) (df, conditions) =
     (case find (\<lambda>t. contains t (lower prompt))
             [''diamond'', ''platinum'', ''gold'', ''silver'', ''none''] of
        None \<Rightarrow> (df, conditions)
      | Some t \<Rightarrow> (select (\<lambda>c. lower (loyalty_tier c) = t) df,
                   conditions @ [''Loyalty tier: '' @ capitalize t]))
   \<and> (contains ''gold'' (lower prompt) \<and> contains ''platinum'' (lower prompt)
        \<and> \<not> contains ''diamond'' (lower prompt) \<longrightarrow>
      tier_stage (lower prompt) (df, conditions) =
        (select (\<lambda>c. lower (loyalty_tier c) = ''platinum'') df,
         conditions @ [''Loyalty tier: Platinum'']))"
  by (simp add: tier_stage_def loyalty_tiers_def upper_char_def lower_char_def)

theorem tier_first_keyword_only_witness:
  "contains ''gold'' (lower ''Gold and Platinum members'')
   \<and> contains ''platinum'' (lower ''Gold and Platinum members'')
   \<and> \<not> contains ''diamond'' (lower ''Gold and Platinum members'')
   \<and> tier_stage (lower ''Gold and Platinum members'')
        (Plain [customer_row 1 ''Gold'' ''USA'' 50 True ''Economy'' 1990,
                customer_row 2 ''Platinum'' ''UK'' 7 True ''Business'' 1950], [])
      = (Plain [customer_row 2 ''Platinum'' ''UK'' 7 True ''Business'' 1950],
         [''Loyalty tier: Platinum''])"
proof -
  have h: "contains ''gold'' (lower ''Gold and Platinum members'')
     \<and> contains ''platinum'' (lower ''Gold and Platinum members'')
     \<and> \<not> contains ''diamond'' (lower ''Gold and Platinum members'')"
    by (simp add: lower_def lower_char_def)
  with tier_first_keyword_only [of "''Gold and Platinum members''"
      "Plain [customer_row 1 ''Gold'' ''USA'' 50 True ''Economy'' 1990,
              customer_row 2 ''Platinum'' ''UK'' 7 True ''Business'' 1950]" "[]"]
  have "tier_stage (lower ''Gold and Platinum members'')
        (Plain [customer_row 1 ''Gold'' ''USA'' 50 True ''Economy'' 1990,
                customer_row 2 ''Platinum'' ''UK'' 7 True ''Business'' 1950], [])
      = (select (\<lambda>c. lower (loyalty_tier c) = ''platinum'')
           (Plain [customer_row 1 ''Gold'' ''USA'' 50 True ''Economy'' 1990,
                   customer_row 2 ''Platinum'' ''UK'' 7 True ''Business'' 1950]),
         [] @ [''Loyalty tier: Platinum''])"
    by blast
  with h show ?thesis
    by (simp add: customer_row_def lower_def lower_char_def)
qed

text \<open>
  C7. When no block takes its branch, the function returns the whole input table, unchanged,
  and the condition list is the single entry "All customers (no filters applied)".
\<close>

theorem no_match_returns_everything:
  assumes "no_matcher_fires prompt customers_df bookings_df"
  shows "parse_segment_prompt prompt customers_df bookings_df =
           Inr (Plain customers_df, [''All customers (no filters applied)''])"
proof -
  let ?pl = "lower prompt"
  let ?s0 = "(Plain customers_df, []) :: segment"
  from assms have tier: "\<forall>t \<in> set loyalty_tiers. \<not> contains t ?pl"
    and ctry: "\<not> ((contains ''from'' ?pl \<or> contains ''in'' ?pl \<or> contains ''country'' ?pl)
           \<and> (\<exists>c \<in> set customers_df. contains (lower (country c)) ?pl))"
    and freq: "\<not> (contains ''frequent'' ?pl \<or> contains ''high'' ?pl \<or> contains ''many'' ?pl)"
    and inact: "\<not> (contains ''inactive'' ?pl \<or> contains ''churned'' ?pl)"
    and act: "\<not> (contains ''active'' ?pl \<and> \<not> contains ''inactive'' ?pl)"
    and cabin: "\<forall>t \<in> set cabin_classes. \<not> contains t ?pl"
    and young: "\<not> (contains ''young'' ?pl \<or> contains ''millennial'' ?pl)"
    and senior: "\<not> contains ''senior'' ?pl"
    and spend: "\<not> (bookings_df \<noteq> None \<and> contains ''spend'' ?pl)"
    unfolding no_matcher_fires_def Let_def by blast+
  have s1: "tier_stage ?pl ?s0 = ?s0"
    unfolding tier_stage_def using tier by (rule tier_loop_skip)
  have s2: "country_stage ?pl ?s0 = ?s0"
    using ctry by (intro country_stage_skip) simp
  have s3: "frequency_stage ?pl ?s0 = Inr ?s0"
    using freq by (simp add: frequency_stage_def)
  have s4: "inactive_stage ?pl ?s0 = ?s0"
    using inact by (simp add: inactive_stage_def)
  have s5: "active_stage ?pl ?s0 = ?s0"
    using act by (simp add: active_stage_def)
  have s6: "cabin_stage ?pl ?s0 = ?s0"
    unfolding cabin_stage_def using cabin by (rule cabin_loop_skip)
  have s7: "young_stage ?pl ?s0 = ?s0"
    using young by (simp add: young_stage_def)
  have s8: "senior_stage ?pl ?s0 = ?s0"
    using senior by (simp add: senior_stage_def)
  have s9: "spend_stage ?pl bookings_df ?s0 = ?s0"
    using spend by (auto simp: spend_stage_def split: option.split)
  have "after_frequency ?pl bookings_df ?s0 =
          (Plain customers_df, [''All customers (no filters applied)''])"
    by (simp add: after_frequency_def s4 s5 s6 s7 s8 s9 default_stage_def)
  then show ?thesis
    by (simp add: parse_segment_prompt_def Let_def s1 s2 s3)
qed

theorem no_match_returns_everything_witness:
  "no_matcher_fires ''Hello there''
     [customer_row 1 ''Gold'' ''USA'' 50 True ''Economy'' 1990,
      customer_row 2 ''Silver'' ''UK'' 7 False ''Business'' 1950]
     (Some [\<lparr>booking_customer_id = 1, booking_status = ''Completed'', total_amount = 100\<rparr>])
   \<and> parse_segment_prompt ''Hello there''
     [customer_row 1 ''Gold'' ''USA'' 50 True ''Economy'' 1990,
      customer_row 2 ''Silver'' ''UK'' 7 False ''Business'' 1950]
     (Some [\<lparr>booking_customer_id = 1, booking_status = ''Completed'', total_amount = 100\<rparr>])
     = Inr (Plain [customer_row 1 ''Gold'' ''USA'' 50 True ''Economy'' 1990,
                   customer_row 2 ''Silver'' ''UK'' 7 False ''Business'' 1950],
            [''All customers (no filters applied)''])"
proof -
  have h: "no_matcher_fires ''Hello there''
     [customer_row 1 ''Gold'' ''USA'' 50 True ''Economy'' 1990,
      customer_row 2 ''Silver'' ''UK'' 7 False ''Business'' 1950]
     (Some [\<lparr>booking_customer_id = 1, booking_status = ''Completed'', total_amount = 100\<rparr>])"
    by (simp add: no_matcher_fires_def Let_def lower_def lower_char_def loyalty_tiers_def
        cabin_classes_def customer_row_def)
  from no_match_returns_everything [OF h] h show ?thesis
    by simp
qed

text \<open>
  C8. The claim is that an empty table at the frequency block is passed on without an
  exception. In the source the 75th percentile of an empty column is NaN, and building the
  label converts it with \<^verbatim>\<open>int\<close>, which raises \<^verbatim>\<open>ValueError\<close>: both on an empty
  input table and on a table emptied by the tier block.
\<close>

theorem frequency_on_empty_population_raises:
  "parse_segment_prompt ''frequent'' [] bookings_df = Inl ValueError
   \<and> parse_segment_prompt ''frequent diamond flyers''
       [customer_row 1 ''Gold'' ''USA'' 50 True ''Economy'' 1996] None = Inl ValueError"
  by (simp add: run_defs customer_row_def)

text \<open>
  C9, as stated, fails: the claim is that the returned table has the columns of the input
  table also when the age block runs. On the request "young" the returned table has the
  additional column \<^verbatim>\<open>age\<close>.
\<close>

theorem age_column_counterexample:
  "parse_segment_prompt ''young''
     [customer_row 1 ''Gold'' ''USA'' 50 True ''Economy'' 1996] None
   = Inr (WithAge [(customer_row 1 ''Gold'' ''USA'' 50 True ''Economy'' 1996, 30)],
          [''Age: 25-40''])
   \<and> columns customer_columns
        (WithAge [(customer_row 1 ''Gold'' ''USA'' 50 True ''Economy'' 1996, 30)])
      \<noteq> customer_columns"
  by (simp add: run_defs customer_row_def customer_columns_def)

text \<open>
  C9, amended. The returned table has the columns of the input table, followed by the
  column \<^verbatim>\<open>age\<close> when the request contains "young", "millennial" or "senior" (the input
  table having no column of that name); in every case the surviving rows keep their input
  order.
\<close>

theorem age_column_and_row_order:
  assumes "parse_segment_prompt prompt customers_df bookings_df = Inr (df, conditions)"
    and "''age'' \<notin> set base"
  shows "columns base df =
           (if contains ''young'' (lower prompt) \<or> contains ''millennial'' (lower prompt)
               \<or> contains ''senior'' (lower prompt)
            then base @ [''age''] else base)
         \<and> subseq (customers_of df) customers_df"
  using has_age_parse_segment_prompt [OF assms(1)] parse_segment_prompt_narrows [OF assms(1)]
    assms(2)
  by (simp add: columns_has_age)

theorem age_column_and_row_order_witness:
  "parse_segment_prompt ''Senior travellers''
     [customer_row 1 ''Gold'' ''USA'' 50 True ''Economy'' 1956,
      customer_row 2 ''Silver'' ''UK'' 7 False ''Business'' 1996] None
     = Inr (WithAge [(customer_row 1 ''Gold'' ''USA'' 50 True ''Economy'' 1956, 70)],
            [''Age: 65+''])
   \<and> ''age'' \<notin> set customer_columns
   \<and> columns customer_columns
        (WithAge [(customer_row 1 ''Gold'' ''USA'' 50 True ''Economy'' 1956, 70)])
      = customer_columns @ [''age'']
   \<and> subseq [customer_row 1 ''Gold'' ''USA'' 50 True ''Economy'' 1956]
        [customer_row 1 ''Gold'' ''USA'' 50 True ''Economy'' 1956,
         customer_row 2 ''Silver'' ''UK'' 7 False ''Business'' 1996]"
proof -
  have run: "parse_segment_prompt ''Senior travellers''
     [customer_row 1 ''Gold'' ''USA'' 50 True ''Economy'' 1956,
      customer_row 2 ''Silver'' ''UK'' 7 False ''Business'' 1996] None
     = Inr (WithAge [(customer_row 1 ''Gold'' ''USA'' 50 True ''Economy'' 1956, 70)],
            [''Age: 65+''])"
    by (simp add: run_defs customer_row_def)
  have base: "''age'' \<notin> set customer_columns"
    by (simp add: customer_columns_def)
  have kw: "contains ''senior'' (lower ''Senior travellers'')"
    by (simp add: lower_def lower_char_def)
  from age_column_and_row_order [OF run base] run base kw show ?thesis
    by simp
qed

text \<open>
  C10. The trigger of the country block is substring containment on the lower-cased
  request: whenever the two letters "in" occur anywhere in it, the scan over the countries
  of the current table runs, and restricts the table to the first country whose name occurs
  in the request.
\<close>

theorem country_trigger_is_substring:
  "contains ''in'' (lower prompt) \<Longrightarrow>
   country_stage (lower prompt) (df, conditions) =
     (case find (\<lambda>cn. contains (lower cn) (lower prompt))
             (unique (map country (customers_of df))) of
        None \<Rightarrow> (df, conditions)
      | Some cn \<Rightarrow> (select (\<lambda>c. lower (country c) = lower cn) df,
                    conditions @ [''Country: '' @ cn]))"
  by (simp add: country_stage_def country_loop_find split: option.split)

theorem country_trigger_is_substring_witness:
  "contains ''in'' (lower ''Inactive USA customers'')
   \<and> country_stage (lower ''Inactive USA customers'')
        (Plain [customer_row 1 ''Gold'' ''UK'' 50 False ''Economy'' 1990,
                customer_row 2 ''Platinum'' ''USA'' 7 False ''Business'' 1950], [])
      = (Plain [customer_row 2 ''Platinum'' ''USA'' 7 False ''Business'' 1950],
         [''Country: USA''])"
proof -
  have h: "contains ''in'' (lower ''Inactive USA customers'')"
    by (simp add: lower_def lower_char_def)
  from country_trigger_is_substring [OF h,
      of "Plain [customer_row 1 ''Gold'' ''UK'' 50 False ''Economy'' 1990,
                 customer_row 2 ''Platinum'' ''USA'' 7 False ''Business'' 1950]" "[]"]
  show ?thesis
    using h by (simp add: customer_row_def unique_def lower_def lower_char_def)
qed

end
